theory Spec2Isabelle
  imports Main "HOL-Library.Sublist"
begin

section \<open>Session context (app/server/lib/DocSession.ts)\<close>

text \<open>
  The collaborators of the session object (\<open>Client\<close>, \<open>Authorizer\<close>,
  \<open>RequestWithLogin\<close>, \<open>BrowserSettings\<close>, \<open>Role\<close>) are declared elsewhere in the
  application. Each is a record of what this module reads from it: a method without
  arguments is the field holding the value it returns. A \<open>Role\<close> is a TypeScript string;
  \<open>T|null\<close> and an optional field \<open>f?: T\<close> are \<open>T option\<close>.
\<close>

type_synonym Role = string

datatype error = Error string

datatype BrowserSettings = BrowserSettings (timezone: "string option")

record DocAuthResult =
  access :: "Role option"

record Client =
  browserSettings :: BrowserSettings
  getCachedUserId :: "int option"

record Authorizer =
  getUserId :: "int option"
  getCachedAuth :: DocAuthResult

record RequestWithLogin =
  docAuth :: "DocAuthResult option"

datatype Mode = Nascent | Plugin | System

record OptDocSession =
  client :: "Client option"
  shouldBundleActions :: "bool option"
  linkId :: "int option"
  browserSettings :: "BrowserSettings option"
  req :: "RequestWithLogin option"
  mode :: "Mode option"
  authorizer :: "Authorizer option"

text \<open>
  \<open>makeOptDocSession\<close> returns the object literal \<open>{client, browserSettings}\<close>: every
  other field of the session is absent.
\<close>

definition makeOptDocSession :: "Client option \<Rightarrow> BrowserSettings option \<Rightarrow> OptDocSession" where
  "makeOptDocSession client' browserSettings' =
     (let browserSettings'' =
        (case client' of
           Some c \<Rightarrow> (if browserSettings' = None then Some (Client.browserSettings c)
                      else browserSettings')
         | None \<Rightarrow> browserSettings')
      in \<lparr>client = client', shouldBundleActions = None, linkId = None,
          browserSettings = browserSettings'', req = None, mode = None,
          authorizer = None\<rparr>)"

text \<open>The \<open>options\<close> argument of \<open>makeExceptionalDocSession\<close>; its default \<open>{}\<close> has no field.\<close>

record ExceptionalOptions =
  opt_client :: "Client option"
  opt_req :: "RequestWithLogin option"
  opt_browserSettings :: "BrowserSettings option"

definition noOptions :: ExceptionalOptions where
  "noOptions = \<lparr>opt_client = None, opt_req = None, opt_browserSettings = None\<rparr>"

definition makeExceptionalDocSession :: "Mode \<Rightarrow> ExceptionalOptions \<Rightarrow> OptDocSession" where
  "makeExceptionalDocSession mode' options =
     (let docSession = makeOptDocSession (opt_client options) (opt_browserSettings options);
          docSession = docSession\<lparr>mode := Some mode'\<rparr>;
          docSession = docSession\<lparr>req := opt_req options\<rparr>
      in docSession)"

definition docSessionFromRequest :: "RequestWithLogin \<Rightarrow> OptDocSession" where
  "docSessionFromRequest req' =
     \<lparr>client = None, shouldBundleActions = None, linkId = None, browserSettings = None,
      req = Some req', mode = None, authorizer = None\<rparr>"

text \<open>
  What a resolution consults: one constructor for each read of a collaborator in
  \<open>getDocSessionUserId\<close> and \<open>getDocSessionAccess\<close>. Both functions return their result
  together with the list of collaborators they consulted, in order.
\<close>

datatype consulted =
  Authorizer_getUserId
  | Authorizer_getCachedAuth
  | Request_getUserId
  | Request_docAuth
  | Client_getCachedUserId

text \<open>
  The free function \<open>getUserId(req)\<close> is imported from the authorizer module; it is the
  parameter \<open>getUserIdOf\<close>.
\<close>

definition getDocSessionUserId ::
  "(RequestWithLogin \<Rightarrow> int option) \<Rightarrow> OptDocSession \<Rightarrow> int option \<times> consulted list" where
  "getDocSessionUserId getUserIdOf docSession =
     (case authorizer docSession of
        Some a \<Rightarrow> (getUserId a, [Authorizer_getUserId])
      | None \<Rightarrow>
     (case req docSession of
        Some r \<Rightarrow> (getUserIdOf r, [Request_getUserId])
      | None \<Rightarrow>
     (case client docSession of
        Some c \<Rightarrow> (getCachedUserId c, [Client_getCachedUserId])
      | None \<Rightarrow> (None, []))))"

text \<open>
  \<open>if (!access) { throw ... }\<close> throws for null, undefined and the empty string: the
  role is returned when \<open>access\<close> is a non-empty string.
\<close>

definition getDocSessionAccess :: "OptDocSession \<Rightarrow> (error + Role) \<times> consulted list" where
  "getDocSessionAccess docSession =
     (if mode docSession = Some Nascent \<or> mode docSession = Some System
      then (Inr ''owners'', [])
      else if mode docSession = Some Plugin then (Inr ''editors'', [])
      else
     (case authorizer docSession of
        Some a \<Rightarrow>
          (case access (getCachedAuth a) of
             Some role \<Rightarrow>
               if role \<noteq> [] then (Inr role, [Authorizer_getCachedAuth])
               else (Inl (Error ''getDocSessionAccess expected authorizer.getCachedAuth''),
                     [Authorizer_getCachedAuth])
           | None \<Rightarrow>
               (Inl (Error ''getDocSessionAccess expected authorizer.getCachedAuth''),
                [Authorizer_getCachedAuth]))
      | None \<Rightarrow>
     (case req docSession of
        Some r \<Rightarrow>
          (case (case docAuth r of None \<Rightarrow> None | Some da \<Rightarrow> access da) of
             Some role \<Rightarrow>
               if role \<noteq> [] then (Inr role, [Request_docAuth])
               else (Inl (Error ''getDocSessionAccess expected req.docAuth.access''),
                     [Request_docAuth])
           | None \<Rightarrow>
               (Inl (Error ''getDocSessionAccess expected req.docAuth.access''),
                [Request_docAuth]))
      | None \<Rightarrow>
          (Inl (Error ''getDocSessionAccess could not find access information in DocSession''),
           []))))"


text \<open>JavaScript's \<open>!access\<close> for a string that may be null or undefined.\<close>

definition falsy :: "Role option \<Rightarrow> bool" where
  "falsy a = (case a of None \<Rightarrow> True | Some s \<Rightarrow> s = [])"

section \<open>Printing a page widget (printViewSection)\<close>

subsection \<open>The page: elements, class lists, the DOM operations used\<close>

text \<open>
  The page is a forest of elements: the document's root element and any detached tree.
  An element is referred to by its position, the list of child indices from a root down
  to it, so that two references are the same element exactly when they are equal. The
  empty list refers to no element. The parent of an element is at the position without
  the last index, and an element contains another when its position is a prefix of the
  other's.
\<close>

datatype element = Element (classList: "string list") (children: "element list")

fun elementAt :: "element list \<Rightarrow> nat list \<Rightarrow> element option" where
  "elementAt es [] = None"
| "elementAt es [i] = (if i < length es then Some (es ! i) else None)"
| "elementAt es (i # j # p) =
     (if i < length es then elementAt (children (es ! i)) (j # p) else None)"

definition classesAt :: "element list \<Rightarrow> nat list \<Rightarrow> string list option" where
  "classesAt d e = map_option classList (elementAt d e)"

fun updateElement :: "(element \<Rightarrow> element) \<Rightarrow> nat list \<Rightarrow> element list \<Rightarrow> element list" where
  "updateElement f [] es = es"
| "updateElement f [i] es = (if i < length es then es[i := f (es ! i)] else es)"
| "updateElement f (i # j # p) es =
     (if i < length es
      then es[i := Element (classList (es ! i)) (updateElement f (j # p) (children (es ! i)))]
      else es)"

text \<open>
  \<open>classList.toggle(token, force)\<close>: with \<open>force\<close> true the token is added unless
  present, with \<open>force\<close> false it is removed.
\<close>

definition classList_toggle :: "string \<Rightarrow> bool \<Rightarrow> string list \<Rightarrow> string list" where
  "classList_toggle token force cs =
     (if force then (if token \<in> set cs then cs else cs @ [token]) else removeAll token cs)"

definition toggleClass :: "nat list \<Rightarrow> string \<Rightarrow> bool \<Rightarrow> element list \<Rightarrow> element list" where
  "toggleClass e token force d =
     updateElement (\<lambda>el. Element (classList_toggle token force (classList el)) (children el)) e d"

definition parentElement :: "nat list \<Rightarrow> nat list option" where
  "parentElement e = (if length e \<le> 1 then None else Some (butlast e))"

text \<open>\<open>a.contains(b)\<close>: \<open>b\<close> is \<open>a\<close> or a descendant of \<open>a\<close>.\<close>

definition contains :: "nat list \<Rightarrow> nat list \<Rightarrow> bool" where
  "contains a b = prefix a b"

text \<open>
  The elements below position \<open>p\<close>, in document order, where \<open>es\<close> are the children of
  \<open>p\<close> from index \<open>i\<close> on.
\<close>

fun descendantsFrom :: "nat list \<Rightarrow> nat \<Rightarrow> element list \<Rightarrow> nat list list" where
  "descendantsFrom p i [] = []"
| "descendantsFrom p i (Element cs ks # es) =
     (p @ [i]) # descendantsFrom (p @ [i]) 0 ks @ descendantsFrom p (Suc i) es"

text \<open>\<open>e.querySelector('.c')\<close>: the first descendant of \<open>e\<close> in document order with class \<open>c\<close>.\<close>

definition hasClass :: "element list \<Rightarrow> string \<Rightarrow> nat list \<Rightarrow> bool" where
  "hasClass d c e = (case classesAt d e of None \<Rightarrow> False | Some cs \<Rightarrow> c \<in> set cs)"

definition querySelector :: "element list \<Rightarrow> nat list \<Rightarrow> string \<Rightarrow> nat list option" where
  "querySelector d e c =
     (case elementAt d e of
        None \<Rightarrow> None
      | Some el \<Rightarrow> find (hasClass d c) (descendantsFrom e 0 (children el)))"

text \<open>\<open>e.closest('.c')\<close>: \<open>e\<close> or its nearest ancestor with class \<open>c\<close>.\<close>

function closest :: "element list \<Rightarrow> nat list \<Rightarrow> string \<Rightarrow> nat list option" where
  "closest d e c =
     (if hasClass d c e then Some e
      else (case parentElement e of None \<Rightarrow> None | Some p \<Rightarrow> closest d p c))"
  by pat_completeness auto
termination
  by (relation "measure (\<lambda>(d, e, c). length e)")
     (auto simp: parentElement_def split: if_splits)

declare closest.simps [simp del]

subsection \<open>Layout, view instance and window\<close>

text \<open>
  \<open>layout.forEachBox\<close> visits the boxes of the layout; a box carries its element
  \<open>box.dom\<close>. The view instance is declared elsewhere: \<open>viewPane\<close> is its element,
  \<open>isCustomView\<close> says whether it is an instance of \<open>CustomView\<close>, \<open>triggerPrint\<close> whether
  the promise of its \<open>triggerPrint()\<close> resolves, and \<open>viewPrepareToPrint\<close> is what its own
  \<open>prepareToPrint(onOff)\<close> does to the page.
\<close>

record LayoutBox =
  box_dom :: "nat list"

record ViewInstance =
  viewPane :: "nat list option"
  isCustomView :: bool
  triggerPrint :: bool
  viewPrepareToPrint :: "bool \<Rightarrow> element list \<Rightarrow> element list"

record ViewSectionRec =
  viewInstance :: "ViewInstance option"

datatype event =
  ViewPrepareToPrint bool
  | CustomViewTriggerPrint
  | ConsoleWarn
  | PrintOutput "element list"

text \<open>
  The window: the page, the \<open>debugPrinting\<close> flag, whether the two listeners of
  \<open>printViewSection\<close> (\<open>sub1\<close> on \<open>beforeprint\<close>, \<open>sub2\<close> on \<open>afterprint\<close>) are
  registered, and what has happened so far.
\<close>

record Window =
  document :: "element list"
  debugPrinting :: bool
  sub1 :: bool
  sub2 :: bool
  events :: "event list"

subsection \<open>prepareToPrint\<close>

fun forEachBox_hide :: "nat list \<Rightarrow> bool \<Rightarrow> LayoutBox list \<Rightarrow> element list \<Rightarrow> element list" where
  "forEachBox_hide sectionElem onOff [] d = d"
| "forEachBox_hide sectionElem onOff (box # boxes) d =
     forEachBox_hide sectionElem onOff boxes
       (if \<not> contains (box_dom box) sectionElem
        then toggleClass (box_dom box) ''print-hide'' onOff d else d)"

function markParents :: "bool \<Rightarrow> nat list option \<Rightarrow> element list \<Rightarrow> element list" where
  "markParents onOff None d = d"
| "markParents onOff (Some elem) d =
     markParents onOff (parentElement elem) (toggleClass elem ''print-parent'' onOff d)"
  by pat_completeness auto
termination
  by (relation "measure (\<lambda>(onOff, elem, d). case elem of None \<Rightarrow> 0 | Some e \<Rightarrow> Suc (length e))")
     (auto simp: parentElement_def split: option.splits)

declare markParents.simps [simp del]

definition keyElem :: "element list \<Rightarrow> nat list \<Rightarrow> nat list" where
  "keyElem d sectionElem =
     (case querySelector d sectionElem ''print-all-rows'' of
        Some k \<Rightarrow> k
      | None \<Rightarrow> sectionElem)"

text \<open>
  The call \<open>viewInstance.prepareToPrint(onOff)\<close>: the view changes the page, and the
  call is recorded as the event \<open>ViewPrepareToPrint onOff\<close>.
\<close>

definition callPrepareToPrint :: "ViewInstance \<Rightarrow> bool \<Rightarrow> Window \<Rightarrow> Window" where
  "callPrepareToPrint view onOff w =
     w\<lparr>document := viewPrepareToPrint view onOff (document w),
       events := events w @ [ViewPrepareToPrint onOff]\<rparr>"

definition prepareToPrint ::
  "LayoutBox list \<Rightarrow> ViewInstance \<Rightarrow> nat list \<Rightarrow> bool \<Rightarrow> Window \<Rightarrow> Window" where
  "prepareToPrint layout view sectionElem onOff w =
     (let w1 = w\<lparr>document := forEachBox_hide sectionElem onOff layout (document w)\<rparr>;
          w2 = w1\<lparr>document := toggleClass sectionElem ''print-widget'' onOff (document w1)\<rparr>;
          w3 = callPrepareToPrint view onOff w2;
          keyElem' = keyElem (document w3) sectionElem
      in w3\<lparr>document := markParents onOff (parentElement keyElem') (document w3)\<rparr>)"

text \<open>A toggle that is made only for the elements that satisfy a condition.\<close>

definition toggleIf :: "bool \<Rightarrow> string \<Rightarrow> bool \<Rightarrow> string list \<Rightarrow> string list" where
  "toggleIf cond c b cs = (if cond then classList_toggle c b cs else cs)"

subsection \<open>printViewSection\<close>

definition beforeprintHandler ::
  "LayoutBox list \<Rightarrow> ViewInstance \<Rightarrow> nat list \<Rightarrow> Window \<Rightarrow> Window" where
  "beforeprintHandler layout view sectionElem w = prepareToPrint layout view sectionElem True w"

definition afterprintHandler ::
  "LayoutBox list \<Rightarrow> ViewInstance \<Rightarrow> nat list \<Rightarrow> Window \<Rightarrow> Window" where
  "afterprintHandler layout view sectionElem w =
     (let w1 = w\<lparr>sub1 := False\<rparr>;
          w2 = w1\<lparr>sub2 := False\<rparr>
      in if \<not> debugPrinting w2 then prepareToPrint layout view sectionElem False w2 else w2)"

text \<open>
  \<open>window.print()\<close> is the browser's: it fires \<open>beforeprint\<close>, prints the page as it then
  is, and fires \<open>afterprint\<close>. A listener runs when it is registered. The page printed
  is recorded as the event \<open>PrintOutput\<close>.
\<close>

definition window_print ::
  "LayoutBox list \<Rightarrow> ViewInstance \<Rightarrow> nat list \<Rightarrow> Window \<Rightarrow> Window" where
  "window_print layout view sectionElem w =
     (let w1 = (if sub1 w then beforeprintHandler layout view sectionElem w else w);
          w2 = w1\<lparr>events := events w1 @ [PrintOutput (document w1)]\<rparr>
      in if sub2 w2 then afterprintHandler layout view sectionElem w2 else w2)"

definition sectionElemOf :: "ViewSectionRec \<Rightarrow> Window \<Rightarrow> nat list option" where
  "sectionElemOf viewSection w =
     (case viewInstance viewSection of
        None \<Rightarrow> None
      | Some view \<Rightarrow>
          (case viewPane view of
             None \<Rightarrow> None
           | Some pane \<Rightarrow> closest (document w) pane ''viewsection_content''))"

definition printViewSection ::
  "LayoutBox list \<Rightarrow> ViewSectionRec \<Rightarrow> Window \<Rightarrow> error + Window" where
  "printViewSection layout viewSection w =
     (case viewInstance viewSection of
        None \<Rightarrow> Inl (Error ''No page widget to print'')
      | Some view \<Rightarrow>
     (case sectionElemOf viewSection w of
        None \<Rightarrow> Inl (Error ''No page widget to print'')
      | Some sectionElem \<Rightarrow>
          if isCustomView view \<and> triggerPrint view
          then Inr (w\<lparr>events := events w @ [CustomViewTriggerPrint]\<rparr>)
          else
            (let w0 = (if isCustomView view
                       then w\<lparr>events := events w @ [CustomViewTriggerPrint, ConsoleWarn]\<rparr>
                       else w);
                 w1 = w0\<lparr>sub1 := True\<rparr>;
                 w2 = w1\<lparr>sub2 := True\<rparr>
             in Inr (window_print layout view sectionElem w2))))"

subsection \<open>Two kinds of view\<close>

text \<open>A view that renders the same way on screen and in print.\<close>

definition plainView :: "nat list \<Rightarrow> ViewInstance" where
  "plainView pane =
     \<lparr>viewPane = Some pane, isCustomView = False, triggerPrint = False,
      viewPrepareToPrint = (\<lambda>onOff d. d)\<rparr>"

text \<open>
  Modelled from the spec: a view that uses scrolly rendering (its \<open>prepareToPrint\<close> is
  not among these sources). Scrolly rendering "must be temporarily switched to full
  rendering before printing": switching on puts the element made by \<open>renderAllRows\<close>,
  of class \<open>print-all-rows\<close>, into the view pane, and switching off takes it out again.
\<close>

definition scrollyView :: "nat list \<Rightarrow> ViewInstance" where
  "scrollyView pane =
     \<lparr>viewPane = Some pane, isCustomView = False, triggerPrint = False,
      viewPrepareToPrint = (\<lambda>onOff d.
        updateElement
          (\<lambda>el. Element (classList el)
             (if onOff then children el @ [Element [''print-all-rows''] []]
              else filter (\<lambda>k. ''print-all-rows'' \<notin> set (classList k)) (children el)))
          pane d)\<rparr>"

section \<open>Rendering all rows for print (renderAllRows)\<close>

subsection \<open>The browser: setting and reading innerHTML\<close>

text \<open>
  Assigning to \<open>element.innerHTML\<close> makes the browser parse the string into the
  element's children; reading it makes the browser serialise the children. Both are the
  browser's, not the repository's: \<open>renderAllRows\<close> takes them as the parameter
  \<open>browser\<close>.
\<close>

datatype htmlNode = Text string | Elem string "htmlNode list"

record Browser =
  parseFragment :: "string \<Rightarrow> htmlNode list"
  serializeFragment :: "htmlNode list \<Rightarrow> string"

record PrintElement =
  tagName :: string
  className :: "string list"
  childNodes :: "htmlNode list"

definition set_innerHTML :: "Browser \<Rightarrow> string \<Rightarrow> PrintElement \<Rightarrow> PrintElement" where
  "set_innerHTML browser s el = el\<lparr>childNodes := parseFragment browser s\<rparr>"

definition innerHTML :: "Browser \<Rightarrow> PrintElement \<Rightarrow> string" where
  "innerHTML browser el = serializeFragment browser (childNodes el)"

subsection \<open>renderAllRows\<close>

text \<open>
  A row id is a number or \<open>'new'\<close>. The floating row model made by
  \<open>tableModel.createFloatingRowModel(null)\<close> is one object that the loop re-assigns:
  \<open>_index(index)\<close> and \<open>assign(rowId)\<close> set the position and the row it shows. The table
  model is a parameter; \<open>renderRow\<close> sees the row model and returns an element, of which
  only \<open>outerHTML\<close> is read.
\<close>

datatype RowId = Row int | New

record 't DataRowModel =
  tableModel :: 't
  index' :: "nat option"
  rowId' :: "int option"

record RowElement =
  outerHTML :: string

definition createFloatingRowModel :: "'t \<Rightarrow> int option \<Rightarrow> 't DataRowModel" where
  "createFloatingRowModel tm r = \<lparr>tableModel = tm, index' = None, rowId' = r\<rparr>"

text \<open>\<open>Array.prototype.join\<close>.\<close>

fun join :: "string \<Rightarrow> string list \<Rightarrow> string" where
  "join sep [] = []"
| "join sep [x] = x"
| "join sep (x # y # ys) = x @ sep @ join sep (y # ys)"

text \<open>
  The body of \<open>rowIds.forEach((rowId, index) => ...)\<close>: the state is the row model and
  the array \<open>html\<close>.
\<close>

fun forEachRow ::
  "('t DataRowModel \<Rightarrow> RowElement) \<Rightarrow> nat \<Rightarrow> RowId list \<Rightarrow>
     't DataRowModel \<times> string list \<Rightarrow> 't DataRowModel \<times> string list" where
  "forEachRow renderRow index [] st = st"
| "forEachRow renderRow index (New # rowIds) st = forEachRow renderRow (Suc index) rowIds st"
| "forEachRow renderRow index (Row r # rowIds) (rowModel, html) =
     (let rowModel1 = rowModel\<lparr>index' := Some index\<rparr>;
          rowModel2 = rowModel1\<lparr>rowId' := Some r\<rparr>;
          elem = renderRow rowModel2
      in forEachRow renderRow (Suc index) rowIds (rowModel2, html @ [outerHTML elem]))"

definition renderAllRows ::
  "Browser \<Rightarrow> 't \<Rightarrow> RowId list \<Rightarrow> ('t DataRowModel \<Rightarrow> RowElement) \<Rightarrow> PrintElement" where
  "renderAllRows browser tm rowIds renderRow =
     (let rowModel = createFloatingRowModel tm None;
          (rowModel', html) = forEachRow renderRow 0 rowIds (rowModel, []);
          result = \<lparr>tagName = ''div'', className = [''print-all-rows''], childNodes = []\<rparr>
      in set_innerHTML browser (join [CHR 0x0A] html) result)"

subsection \<open>A browser for markup made of text and plain tags\<close>

text \<open>
  A model of the HTML standard's fragment parser with a \<open>div\<close> as context element, and
  of its serializer, for markup made of text without character references and of start
  and end tags without attributes: an element is opened by its start tag and closed by
  the matching end tag or the end of the input, an end tag that matches no open element
  is dropped, adjacent texts are one text node, and the tags of table parts
  (\<open>caption\<close>, \<open>col\<close>, \<open>colgroup\<close>, \<open>tbody\<close>, \<open>td\<close>, \<open>tfoot\<close>, \<open>th\<close>, \<open>thead\<close>, \<open>tr\<close>), which
  cannot stand in a \<open>div\<close>, are dropped with their content kept.
\<close>

datatype token = StartTag string | EndTag string | Characters string

function tokenize :: "string \<Rightarrow> token list" where
  "tokenize [] = []"
| "tokenize (c # cs) =
     (if c = CHR ''<''
      then (case takeWhile (\<lambda>x. x \<noteq> CHR ''>'') cs of
              CHR ''/'' # name \<Rightarrow> EndTag name
            | name \<Rightarrow> StartTag name) #
           tokenize (drop 1 (dropWhile (\<lambda>x. x \<noteq> CHR ''>'') cs))
      else Characters (c # takeWhile (\<lambda>x. x \<noteq> CHR ''<'') cs) #
           tokenize (dropWhile (\<lambda>x. x \<noteq> CHR ''<'') cs))"
  by pat_completeness auto
termination
proof (relation "measure length", goal_cases)
  case 1
  show ?case by simp
next
  case (2 c cs)
  have "length (dropWhile (\<lambda>x. x \<noteq> CHR ''>'') cs) \<le> length cs"
    by (rule length_dropWhile_le)
  then show ?case by simp
next
  case (3 c cs)
  have "length (dropWhile (\<lambda>x. x \<noteq> CHR ''<'') cs) \<le> length cs"
    by (rule length_dropWhile_le)
  then show ?case by simp
qed

declare tokenize.simps [simp del]

definition tablePart :: "string \<Rightarrow> bool" where
  "tablePart name =
     (name \<in> set [''caption'', ''col'', ''colgroup'', ''tbody'', ''td'', ''tfoot'', ''th'',
                   ''thead'', ''tr''])"

fun appendNode :: "htmlNode list \<Rightarrow> htmlNode \<Rightarrow> htmlNode list" where
  "appendNode [] n = [n]"
| "appendNode [Text a] (Text b) = [Text (a @ b)]"
| "appendNode [k] n = [k, n]"
| "appendNode (k # k' # ks) n = k # appendNode (k' # ks) n"

text \<open>
  The open elements, innermost first, each with the children it has so far; the last
  one is the context element.
\<close>

fun addChild :: "htmlNode \<Rightarrow> (string \<times> htmlNode list) list \<Rightarrow> (string \<times> htmlNode list) list" where
  "addChild n [] = []"
| "addChild n ((name, ks) # open) = (name, appendNode ks n) # open"

fun closeAll :: "(string \<times> htmlNode list) list \<Rightarrow> htmlNode list" where
  "closeAll [] = []"
| "closeAll [(name, ks)] = ks"
| "closeAll ((name, ks) # (name', ks') # open) =
     closeAll ((name', appendNode ks' (Elem name ks)) # open)"

fun construct :: "token list \<Rightarrow> (string \<times> htmlNode list) list \<Rightarrow> htmlNode list" where
  "construct [] open = closeAll open"
| "construct (Characters s # ts) open = construct ts (addChild (Text s) open)"
| "construct (StartTag name # ts) open =
     (if tablePart name then construct ts open else construct ts ((name, []) # open))"
| "construct (EndTag name # ts) open =
     (case open of
        (name', ks) # parent # rest \<Rightarrow>
          if name' = name \<and> \<not> tablePart name
          then construct ts (addChild (Elem name ks) (parent # rest))
          else construct ts open
      | _ \<Rightarrow> construct ts open)"

definition escapeText :: "string \<Rightarrow> string" where
  "escapeText s =
     concat (map (\<lambda>c. if c = CHR ''&'' then ''&amp;''
                       else if c = CHR ''<'' then ''&lt;''
                       else if c = CHR ''>'' then ''&gt;''
                       else [c]) s)"

fun serializeNode :: "htmlNode \<Rightarrow> string" where
  "serializeNode (Text s) = escapeText s"
| "serializeNode (Elem name ks) =
     ''<'' @ name @ ''>'' @ concat (map serializeNode ks) @ ''</'' @ name @ ''>''"

definition divContext :: Browser where
  "divContext =
     \<lparr>parseFragment = (\<lambda>s. construct (tokenize s) [(''div'', [])]),
      serializeFragment = (\<lambda>ks. concat (map serializeNode ks))\<rparr>"

section \<open>Properties of the session context\<close>

text \<open>
  C1. A session whose \<open>mode\<close> is set gets its role from the mode alone: \<open>owners\<close> for
  \<open>nascent\<close> and \<open>system\<close>, \<open>editors\<close> for \<open>plugin\<close>, whatever the authorizer, the
  request and the client hold, and no collaborator is consulted.
\<close>

theorem getDocSessionAccess_mode:
  assumes "mode docSession = Some m"
  shows "getDocSessionAccess docSession =
           (Inr (case m of Nascent \<Rightarrow> ''owners'' | System \<Rightarrow> ''owners'' | Plugin \<Rightarrow> ''editors''), [])"
  using assms by (cases m) (simp_all add: getDocSessionAccess_def)

theorem getDocSessionAccess_mode_witness:
  "getDocSessionAccess
     \<lparr>client = Some \<lparr>Client.browserSettings = BrowserSettings None, getCachedUserId = Some 5\<rparr>,
      shouldBundleActions = None, linkId = None, browserSettings = None,
      req = Some \<lparr>docAuth = Some \<lparr>access = Some ''viewers''\<rparr>\<rparr>,
      mode = Some Plugin,
      authorizer = Some \<lparr>getUserId = Some 5, getCachedAuth = \<lparr>access = Some ''owners''\<rparr>\<rparr>\<rparr>
   = (Inr ''editors'', [])"
  using getDocSessionAccess_mode [of _ Plugin] by simp

text \<open>
  C2. \<open>getDocSessionUserId\<close> takes the user id from the first source that is present, in
  the order authorizer, request, client, and returns null when none is; it consults that
  one source only.
\<close>

theorem getDocSessionUserId_precedence:
  "(\<forall>a. authorizer docSession = Some a \<longrightarrow>
      getDocSessionUserId getUserIdOf docSession = (getUserId a, [Authorizer_getUserId])) \<and>
   (\<forall>r. authorizer docSession = None \<and> req docSession = Some r \<longrightarrow>
      getDocSessionUserId getUserIdOf docSession = (getUserIdOf r, [Request_getUserId])) \<and>
   (\<forall>c. authorizer docSession = None \<and> req docSession = None \<and> client docSession = Some c \<longrightarrow>
      getDocSessionUserId getUserIdOf docSession = (getCachedUserId c, [Client_getCachedUserId])) \<and>
   (authorizer docSession = None \<and> req docSession = None \<and> client docSession = None \<longrightarrow>
      getDocSessionUserId getUserIdOf docSession = (None, []))"
  by (simp add: getDocSessionUserId_def)

theorem getDocSessionUserId_precedence_witness:
  "getDocSessionUserId (\<lambda>r. Some 2)
     \<lparr>client = Some \<lparr>Client.browserSettings = BrowserSettings None, getCachedUserId = Some 3\<rparr>,
      shouldBundleActions = None, linkId = None, browserSettings = None,
      req = Some \<lparr>docAuth = None\<rparr>, mode = None,
      authorizer = Some \<lparr>getUserId = Some 1, getCachedAuth = \<lparr>access = None\<rparr>\<rparr>\<rparr>
     = (Some 1, [Authorizer_getUserId]) \<and>
   getDocSessionUserId (\<lambda>r. Some 2)
     \<lparr>client = Some \<lparr>Client.browserSettings = BrowserSettings None, getCachedUserId = Some 3\<rparr>,
      shouldBundleActions = None, linkId = None, browserSettings = None,
      req = Some \<lparr>docAuth = None\<rparr>, mode = None, authorizer = None\<rparr>
     = (Some 2, [Request_getUserId]) \<and>
   getDocSessionUserId (\<lambda>r. Some 2)
     \<lparr>client = Some \<lparr>Client.browserSettings = BrowserSettings None, getCachedUserId = Some 3\<rparr>,
      shouldBundleActions = None, linkId = None, browserSettings = None,
      req = None, mode = None, authorizer = None\<rparr>
     = (Some 3, [Client_getCachedUserId])"
  using
    getDocSessionUserId_precedence [of
      "\<lparr>client = Some \<lparr>Client.browserSettings = BrowserSettings None, getCachedUserId = Some 3\<rparr>,
        shouldBundleActions = None, linkId = None, browserSettings = None,
        req = Some \<lparr>docAuth = None\<rparr>, mode = None,
        authorizer = Some \<lparr>getUserId = Some 1, getCachedAuth = \<lparr>access = None\<rparr>\<rparr>\<rparr>"
      "\<lambda>r. Some 2"]
    getDocSessionUserId_precedence [of
      "\<lparr>client = Some \<lparr>Client.browserSettings = BrowserSettings None, getCachedUserId = Some 3\<rparr>,
        shouldBundleActions = None, linkId = None, browserSettings = None,
        req = Some \<lparr>docAuth = None\<rparr>, mode = None, authorizer = None\<rparr>"
      "\<lambda>r. Some 2"]
    getDocSessionUserId_precedence [of
      "\<lparr>client = Some \<lparr>Client.browserSettings = BrowserSettings None, getCachedUserId = Some 3\<rparr>,
        shouldBundleActions = None, linkId = None, browserSettings = None,
        req = None, mode = None, authorizer = None\<rparr>"
      "\<lambda>r. Some 2"]
  by simp

text \<open>
  C3, as amended. A session with no mode, no authorizer and no request has no source for
  the access role: \<open>getDocSessionAccess\<close> throws, with or without a client, and the client
  is not consulted.
\<close>

theorem getDocSessionAccess_client_only:
  assumes "mode docSession = None" and "authorizer docSession = None" and "req docSession = None"
  shows "getDocSessionAccess docSession =
           (Inl (Error ''getDocSessionAccess could not find access information in DocSession''), [])"
  using assms by (simp add: getDocSessionAccess_def)

theorem getDocSessionAccess_client_only_witness:
  "getDocSessionAccess
     \<lparr>client = Some \<lparr>Client.browserSettings = BrowserSettings None, getCachedUserId = Some 3\<rparr>,
      shouldBundleActions = None, linkId = None, browserSettings = None,
      req = None, mode = None, authorizer = None\<rparr>
   = (Inl (Error ''getDocSessionAccess could not find access information in DocSession''), [])"
  using getDocSessionAccess_client_only [of
      "\<lparr>client = Some \<lparr>Client.browserSettings = BrowserSettings None, getCachedUserId = Some 3\<rparr>,
        shouldBundleActions = None, linkId = None, browserSettings = None,
        req = None, mode = None, authorizer = None\<rparr>"]
  by simp

text \<open>
  C3 as stated fails: on a session made for a live client, with nothing else set, the
  call throws and the client is not consulted.
\<close>

theorem getDocSessionAccess_client_counterexample:
  "getDocSessionAccess
     (makeOptDocSession
        (Some \<lparr>Client.browserSettings = BrowserSettings None, getCachedUserId = Some 3\<rparr>)
        None)
   = (Inl (Error ''getDocSessionAccess could not find access information in DocSession''), [])"
  by (simp add: getDocSessionAccess_def makeOptDocSession_def)

text \<open>
  C4. \<open>getDocSessionAccess\<close> throws exactly when no mode is set and either there is
  neither an authorizer nor a request, or the source it consults (the authorizer's cached
  auth, else the request's \<open>docAuth\<close>) has no truthy \<open>access\<close>; otherwise it returns a role.
\<close>

theorem getDocSessionAccess_throws_iff:
  "(\<exists>e. fst (getDocSessionAccess docSession) = Inl e) =
     (mode docSession = None \<and>
      ((authorizer docSession = None \<and> req docSession = None) \<or>
       (\<exists>a. authorizer docSession = Some a \<and> falsy (access (getCachedAuth a))) \<or>
       (\<exists>r. authorizer docSession = None \<and> req docSession = Some r \<and>
            falsy (case docAuth r of None \<Rightarrow> None | Some da \<Rightarrow> access da)))) \<and>
   ((\<exists>e. fst (getDocSessionAccess docSession) = Inl e) \<or>
    (\<exists>role. fst (getDocSessionAccess docSession) = Inr role \<and> role \<noteq> []))"
proof (cases "mode docSession")
  case None
  then show ?thesis
    by (cases "authorizer docSession"; cases "req docSession")
       (auto simp: getDocSessionAccess_def falsy_def Let_def split: option.splits)
next
  case (Some m)
  then show ?thesis
    by (cases m) (simp_all add: getDocSessionAccess_def)
qed

theorem getDocSessionAccess_throws_iff_witness:
  "(\<exists>e. fst (getDocSessionAccess
       \<lparr>client = None, shouldBundleActions = None, linkId = None, browserSettings = None,
        req = Some \<lparr>docAuth = Some \<lparr>access = Some ''viewers''\<rparr>\<rparr>, mode = None,
        authorizer = Some \<lparr>getUserId = Some 1, getCachedAuth = \<lparr>access = Some []\<rparr>\<rparr>\<rparr>) = Inl e) \<and>
   \<not> (\<exists>e. fst (getDocSessionAccess
       \<lparr>client = None, shouldBundleActions = None, linkId = None, browserSettings = None,
        req = Some \<lparr>docAuth = Some \<lparr>access = Some ''viewers''\<rparr>\<rparr>, mode = None,
        authorizer = None\<rparr>) = Inl e)"
  using
    getDocSessionAccess_throws_iff [of
      "\<lparr>client = None, shouldBundleActions = None, linkId = None, browserSettings = None,
        req = Some \<lparr>docAuth = Some \<lparr>access = Some ''viewers''\<rparr>\<rparr>, mode = None,
        authorizer = Some \<lparr>getUserId = Some 1, getCachedAuth = \<lparr>access = Some []\<rparr>\<rparr>\<rparr>"]
    getDocSessionAccess_throws_iff [of
      "\<lparr>client = None, shouldBundleActions = None, linkId = None, browserSettings = None,
        req = Some \<lparr>docAuth = Some \<lparr>access = Some ''viewers''\<rparr>\<rparr>, mode = None,
        authorizer = None\<rparr>"]
  by (simp add: falsy_def)

text \<open>
  C8. A session may have no client: \<open>makeOptDocSession(null)\<close> returns a session whose
  client is null and whose browser settings are undefined, and on a session with no
  client, no authorizer and no request \<open>getDocSessionUserId\<close> returns null.
\<close>

theorem makeOptDocSession_null:
  "makeOptDocSession None None =
     \<lparr>client = None, shouldBundleActions = None, linkId = None, browserSettings = None,
      req = None, mode = None, authorizer = None\<rparr> \<and>
   getDocSessionUserId getUserIdOf (makeOptDocSession None None) = (None, []) \<and>
   (\<forall>docSession.
      client docSession = None \<and> authorizer docSession = None \<and> req docSession = None \<longrightarrow>
      getDocSessionUserId getUserIdOf docSession = (None, []))"
  by (simp add: makeOptDocSession_def getDocSessionUserId_def)

theorem makeOptDocSession_null_witness:
  "getDocSessionUserId (\<lambda>r. Some 2) (makeExceptionalDocSession System noOptions) = (None, [])"
proof -
  have "client (makeExceptionalDocSession System noOptions) = None \<and>
        authorizer (makeExceptionalDocSession System noOptions) = None \<and>
        req (makeExceptionalDocSession System noOptions) = None"
    by (simp add: makeExceptionalDocSession_def makeOptDocSession_def noOptions_def)
  with makeOptDocSession_null [of "\<lambda>r. Some 2"] show ?thesis
    by blast
qed

text \<open>
  C10. \<open>makeOptDocSession\<close> takes the browser settings from the client when none are
  given and keeps the ones given; \<open>makeExceptionalDocSession\<close> is that session with
  \<open>mode\<close> set to its argument and \<open>req\<close> to \<open>options.req\<close>, nothing else changed.
\<close>

theorem makeOptDocSession_browserSettings:
  "OptDocSession.browserSettings (makeOptDocSession (Some c) None) =
     Some (Client.browserSettings c) \<and>
   OptDocSession.browserSettings (makeOptDocSession client' (Some b)) = Some b \<and>
   client (makeOptDocSession client' browserSettings') = client' \<and>
   makeExceptionalDocSession mode' options =
     (makeOptDocSession (opt_client options) (opt_browserSettings options))
       \<lparr>req := opt_req options, mode := Some mode'\<rparr>"
  by (cases client') (simp_all add: makeOptDocSession_def makeExceptionalDocSession_def)

text \<open>
  X5. A session made from a request resolves the user id with \<open>getUserId(req)\<close> and the
  role with \<open>req.docAuth.access\<close>.
\<close>

theorem docSessionFromRequest_resolves:
  "getDocSessionUserId getUserIdOf (docSessionFromRequest r) =
     (getUserIdOf r, [Request_getUserId]) \<and>
   getDocSessionAccess (docSessionFromRequest \<lparr>docAuth = Some \<lparr>access = Some (c # cs)\<rparr>\<rparr>) =
     (Inr (c # cs), [Request_docAuth]) \<and>
   getDocSessionAccess (docSessionFromRequest \<lparr>docAuth = Some \<lparr>access = Some []\<rparr>\<rparr>) =
     (Inl (Error ''getDocSessionAccess expected req.docAuth.access''), [Request_docAuth]) \<and>
   getDocSessionAccess (docSessionFromRequest \<lparr>docAuth = Some \<lparr>access = None\<rparr>\<rparr>) =
     (Inl (Error ''getDocSessionAccess expected req.docAuth.access''), [Request_docAuth]) \<and>
   getDocSessionAccess (docSessionFromRequest \<lparr>docAuth = None\<rparr>) =
     (Inl (Error ''getDocSessionAccess expected req.docAuth.access''), [Request_docAuth])"
  by (simp add: getDocSessionUserId_def getDocSessionAccess_def docSessionFromRequest_def)

section \<open>Properties of the print model\<close>

subsection \<open>Class lists under the DOM operations\<close>

lemma parentElement_simps [simp]:
  "parentElement [] = None" "parentElement [i] = None"
  "parentElement (i # j # p) = Some (butlast (i # j # p))"
  by (simp_all add: parentElement_def)

lemma classList_toggle_mem:
  "c' \<in> set (classList_toggle c b cs) \<longleftrightarrow> (if c' = c then b \<or> c \<in> set cs \<and> b else c' \<in> set cs)"
  by (auto simp: classList_toggle_def)

lemma classList_toggle_idem:
  "classList_toggle c b (classList_toggle c b cs) = classList_toggle c b cs"
  by (auto simp: classList_toggle_def)

lemma path_cases [case_names Empty Single Deeper]:
  obtains "q = []" | k where "q = [k]" | k l r where "q = k # l # r"
  by (metis list.exhaust)

lemma classesAt_updateElement:
  "classesAt (updateElement (\<lambda>el. Element (g (classList el)) (children el)) p d) q =
     (if q = p then map_option g (classesAt d p) else classesAt d q)"
proof (induction "\<lambda>el. Element (g (classList el)) (children el)" p d arbitrary: q
       rule: updateElement.induct)
  case (1 es)
  then show ?case by (simp add: classesAt_def)
next
  case (2 i es)
  show ?case
  proof (cases q rule: path_cases)
    case Empty
    then show ?thesis by (simp add: classesAt_def)
  next
    case (Single k)
    then show ?thesis by (auto simp: classesAt_def)
  next
    case (Deeper k l r)
    then show ?thesis by (auto simp: classesAt_def nth_list_update)
  qed
next
  case (3 i j p es)
  show ?case
  proof (cases q rule: path_cases)
    case Empty
    then show ?thesis by (simp add: classesAt_def)
  next
    case (Single k)
    then show ?thesis by (auto simp: classesAt_def nth_list_update)
  next
    case (Deeper k l r)
    then show ?thesis
      using "3.hyps"[of "l # r"]
      by (auto simp: classesAt_def nth_list_update)
  qed
qed

lemma classesAt_toggleClass:
  "classesAt (toggleClass p c b d) q =
     (if q = p then map_option (classList_toggle c b) (classesAt d p) else classesAt d q)"
  unfolding toggleClass_def by (rule classesAt_updateElement)


lemma classesAt_Nil [simp]: "classesAt d [] = None"
  by (simp add: classesAt_def)

lemma classesAt_forEachBox_hide:
  "classesAt (forEachBox_hide s b layout d) q =
     (if q \<in> box_dom ` set layout \<and> \<not> contains q s
      then map_option (classList_toggle ''print-hide'' b) (classesAt d q)
      else classesAt d q)"
proof (induction layout arbitrary: d)
  case Nil
  then show ?case by simp
next
  case (Cons box boxes)
  show ?case
    by (auto simp: Cons.IH classesAt_toggleClass option.map_comp comp_def
          classList_toggle_idem)
qed

lemma prefix_butlast_iff:
  "e \<noteq> [] \<Longrightarrow> prefix q e \<longleftrightarrow> q = e \<or> prefix q (butlast e)"
  by (cases e rule: rev_cases) auto

lemma classesAt_markParents_Some:
  "classesAt (markParents b (Some e) d) q =
     (if q \<noteq> [] \<and> prefix q e
      then map_option (classList_toggle ''print-parent'' b) (classesAt d q)
      else classesAt d q)"
proof (induction "length e" arbitrary: e d rule: less_induct)
  case less
  show ?case
  proof (cases "length e \<le> 1")
    case True
    then have "e = [] \<or> (\<exists>i. e = [i])"
      by (cases e) auto
    then show ?thesis
      by (elim disjE exE) (auto simp: markParents.simps classesAt_toggleClass prefix_Cons)
  next
    case False
    then have ne: "e \<noteq> []" and lt: "length (butlast e) < length e"
      by auto
    have notpre: "\<not> prefix e (butlast e)"
      using lt prefix_length_le [of e "butlast e"] by auto
    have step: "markParents b (Some e) d =
                markParents b (Some (butlast e)) (toggleClass e ''print-parent'' b d)"
      using False by (subst markParents.simps) (simp add: parentElement_def)
    show ?thesis
      using notpre
      by (simp only: step less.hyps [OF lt])
         (auto simp: classesAt_toggleClass prefix_butlast_iff [OF ne])
  qed
qed

lemma classesAt_markParents:
  "classesAt (markParents b (parentElement k) d) q =
     (if q \<noteq> [] \<and> strict_prefix q k
      then map_option (classList_toggle ''print-parent'' b) (classesAt d q)
      else classesAt d q)"
proof (cases "length k \<le> 1")
  case True
  then have "k = [] \<or> (\<exists>i. k = [i])"
    by (cases k) auto
  then show ?thesis
    by (elim disjE exE) (auto simp: markParents.simps strict_prefix_def prefix_Cons)
next
  case False
  then have ne: "k \<noteq> []"
    by auto
  have "strict_prefix q k \<longleftrightarrow> prefix q (butlast k)" for q
    using ne by (cases k rule: rev_cases) (auto simp: strict_prefix_def)
  then show ?thesis
    using False by (simp add: parentElement_def classesAt_markParents_Some)
qed

lemma descendantsFrom_Cons:
  "descendantsFrom p i (e # es) =
     (p @ [i]) # descendantsFrom (p @ [i]) 0 (children e) @ descendantsFrom p (Suc i) es"
  by (cases e) simp

lemma descendantsFrom_list_update:
  "j < length es \<Longrightarrow>
   (\<And>p. descendantsFrom p 0 (children e') = descendantsFrom p 0 (children (es ! j))) \<Longrightarrow>
   descendantsFrom p i (es[j := e']) = descendantsFrom p i es"
proof (induction es arbitrary: i j)
  case Nil
  then show ?case by simp
next
  case (Cons x xs)
  show ?case
  proof (cases j)
    case 0
    then show ?thesis
      using Cons.prems by (simp add: descendantsFrom_Cons)
  next
    case (Suc j')
    then show ?thesis
      using Cons.prems Cons.IH [of j' "Suc i"] by (simp add: descendantsFrom_Cons)
  qed
qed

lemma descendantsFrom_updateElement:
  "descendantsFrom p i (updateElement (\<lambda>el. Element (g (classList el)) (children el)) r es) =
     descendantsFrom p i es"
proof (induction "\<lambda>el. Element (g (classList el)) (children el)" r es arbitrary: p i
       rule: updateElement.induct)
  case (1 es)
  then show ?case by simp
next
  case (2 j es)
  then show ?case by (simp add: descendantsFrom_list_update)
next
  case (3 j k r es)
  then show ?case by (simp add: descendantsFrom_list_update)
qed

lemma elementAt_updateElement_descendants:
  "map_option (\<lambda>el. descendantsFrom p 0 (children el))
     (elementAt (updateElement (\<lambda>el. Element (g (classList el)) (children el)) r d) e) =
   map_option (\<lambda>el. descendantsFrom p 0 (children el)) (elementAt d e)"
proof (induction "\<lambda>el. Element (g (classList el)) (children el)" r d arbitrary: e
       rule: updateElement.induct)
  case (1 es)
  then show ?case by simp
next
  case (2 i es)
  show ?case
  proof (cases e rule: path_cases)
    case Empty
    then show ?thesis by simp
  next
    case (Single k)
    then show ?thesis by (auto simp: nth_list_update)
  next
    case (Deeper k l r)
    then show ?thesis by (auto simp: nth_list_update)
  qed
next
  case (3 i j r es)
  show ?case
  proof (cases e rule: path_cases)
    case Empty
    then show ?thesis by simp
  next
    case (Single k)
    then show ?thesis by (auto simp: nth_list_update descendantsFrom_updateElement)
  next
    case (Deeper k l r')
    then show ?thesis
      using "3.hyps" [of "l # r'"] by (auto simp: nth_list_update)
  qed
qed

lemma hasClass_toggleClass:
  "c \<noteq> c' \<Longrightarrow> hasClass (toggleClass r c b d) c' q = hasClass d c' q"
  by (auto simp: hasClass_def classesAt_toggleClass classList_toggle_mem split: option.splits)

lemma querySelector_toggleClass:
  assumes "c \<noteq> c'"
  shows "querySelector (toggleClass r c b d) e c' = querySelector d e c'"
proof -
  have h: "hasClass (toggleClass r c b d) c' = hasClass d c'"
    using assms by (simp add: fun_eq_iff hasClass_toggleClass)
  have "map_option (\<lambda>el. descendantsFrom e 0 (children el)) (elementAt (toggleClass r c b d) e) =
        map_option (\<lambda>el. descendantsFrom e 0 (children el)) (elementAt d e)"
    unfolding toggleClass_def by (rule elementAt_updateElement_descendants)
  then show ?thesis
    unfolding querySelector_def h by (auto split: option.splits)
qed

lemma keyElem_toggleClass:
  "c \<noteq> ''print-all-rows'' \<Longrightarrow> keyElem (toggleClass r c b d) s = keyElem d s"
  by (simp add: keyElem_def querySelector_toggleClass)

lemma keyElem_forEachBox_hide:
  "keyElem (forEachBox_hide s' b layout d) s = keyElem d s"
  by (induction layout arbitrary: d) (simp_all add: keyElem_toggleClass)

lemma keyElem_markParents:
  "keyElem (markParents b e d) s = keyElem d s"
  by (induction b e d rule: markParents.induct)
     (simp_all add: markParents.simps keyElem_toggleClass)

subsection \<open>The descendants of an element\<close>

lemma elementAt_Cons_Suc:
  "elementAt (x # es) (Suc k # r) = elementAt es (k # r)"
  by (cases r) simp_all

lemma elementAt_Nil_forest [simp]: "elementAt [] p = None"
  by (cases p rule: path_cases) simp_all

lemma descendantsFrom_iff:
  "q \<in> set (descendantsFrom p i es) \<longleftrightarrow>
     (\<exists>k r. q = p @ (i + k) # r \<and> elementAt es (k # r) \<noteq> None)"
proof (induction p i es arbitrary: q rule: descendantsFrom.induct)
  case (1 p i)
  then show ?case
    by simp
next
  case (2 p i cs ks es)
  show ?case
  proof
    assume "q \<in> set (descendantsFrom p i (Element cs ks # es))"
    then consider "q = p @ [i]" | "q \<in> set (descendantsFrom (p @ [i]) 0 ks)"
      | "q \<in> set (descendantsFrom p (Suc i) es)"
      by auto
    then show "\<exists>k r. q = p @ (i + k) # r \<and> elementAt (Element cs ks # es) (k # r) \<noteq> None"
    proof cases
      case 1
      then have "q = p @ (i + 0) # [] \<and> elementAt (Element cs ks # es) (0 # []) \<noteq> None"
        by simp
      then show ?thesis by blast
    next
      case 2
      then obtain k r where "q = (p @ [i]) @ (0 + k) # r" "elementAt ks (k # r) \<noteq> None"
        using "2.IH"(1) by blast
      then have "q = p @ (i + 0) # (k # r) \<and>
                 elementAt (Element cs ks # es) (0 # k # r) \<noteq> None"
        by simp
      then show ?thesis by blast
    next
      case 3
      then obtain k r where "q = p @ (Suc i + k) # r" "elementAt es (k # r) \<noteq> None"
        using "2.IH"(2) by blast
      then have "q = p @ (i + Suc k) # r \<and>
                 elementAt (Element cs ks # es) (Suc k # r) \<noteq> None"
        by (simp add: elementAt_Cons_Suc)
      then show ?thesis by blast
    qed
  next
    assume "\<exists>k r. q = p @ (i + k) # r \<and> elementAt (Element cs ks # es) (k # r) \<noteq> None"
    then obtain k r where q: "q = p @ (i + k) # r"
      and ex: "elementAt (Element cs ks # es) (k # r) \<noteq> None"
      by blast
    show "q \<in> set (descendantsFrom p i (Element cs ks # es))"
    proof (cases k)
      case 0
      show ?thesis
      proof (cases r)
        case Nil
        with q 0 show ?thesis by simp
      next
        case (Cons j r')
        with ex 0 have "elementAt ks (j # r') \<noteq> None"
          by simp
        then have "(p @ [i]) @ (0 + j) # r' \<in> set (descendantsFrom (p @ [i]) 0 ks)"
          using "2.IH"(1) by blast
        with q 0 Cons show ?thesis by simp
      qed
    next
      case (Suc k')
      with ex have "elementAt es (k' # r) \<noteq> None"
        by (simp add: elementAt_Cons_Suc)
      then have "p @ (Suc i + k') # r \<in> set (descendantsFrom p (Suc i) es)"
        using "2.IH"(2) by blast
      with q Suc show ?thesis by simp
    qed
  qed
qed

lemma elementAt_below:
  "elementAt d e = Some el \<Longrightarrow> elementAt d (e @ j # r) = elementAt (children el) (j # r)"
  by (induction d e rule: elementAt.induct) (auto split: if_splits)

lemma querySelector_spec:
  assumes "elementAt d e = Some el"
  shows "(\<forall>k. querySelector d e c = Some k \<longrightarrow> strict_prefix e k \<and> hasClass d c k) \<and>
         (querySelector d e c = None \<longleftrightarrow> (\<forall>k. strict_prefix e k \<longrightarrow> \<not> hasClass d c k))"
proof -
  have desc: "k \<in> set (descendantsFrom e 0 (children el)) \<longleftrightarrow>
              strict_prefix e k \<and> elementAt d k \<noteq> None" for k
  proof
    assume "k \<in> set (descendantsFrom e 0 (children el))"
    then obtain j r where "k = e @ j # r" "elementAt (children el) (j # r) \<noteq> None"
      unfolding descendantsFrom_iff by auto
    then show "strict_prefix e k \<and> elementAt d k \<noteq> None"
      using elementAt_below [OF assms] by (simp add: strict_prefix_def)
  next
    assume "strict_prefix e k \<and> elementAt d k \<noteq> None"
    then obtain zs where "k = e @ zs" "zs \<noteq> []" and ex: "elementAt d k \<noteq> None"
      by (auto simp: strict_prefix_def prefix_def)
    then obtain j r where k: "k = e @ j # r"
      by (cases zs) auto
    note k
    moreover note ex
    ultimately have "k = e @ j # r" and "elementAt d k \<noteq> None"
      by simp_all
    then have "elementAt (children el) (j # r) \<noteq> None"
      using elementAt_below [OF assms] by simp
    then show "k \<in> set (descendantsFrom e 0 (children el))"
      unfolding descendantsFrom_iff k by auto
  qed
  have has: "hasClass d c k \<Longrightarrow> elementAt d k \<noteq> None" for k
    by (auto simp: hasClass_def classesAt_def split: option.splits)
  have qs: "querySelector d e c = find (hasClass d c) (descendantsFrom e 0 (children el))"
    using assms by (simp add: querySelector_def)
  have "strict_prefix e k \<and> hasClass d c k" if "querySelector d e c = Some k" for k
  proof -
    from that obtain i where "i < length (descendantsFrom e 0 (children el))"
      and "hasClass d c k" and "k = descendantsFrom e 0 (children el) ! i"
      unfolding qs find_Some_iff by blast
    then have "k \<in> set (descendantsFrom e 0 (children el))" and "hasClass d c k"
      by simp_all
    then show ?thesis
      using desc [of k] by simp
  qed
  moreover have "querySelector d e c = None \<longleftrightarrow>
                 (\<forall>k. strict_prefix e k \<longrightarrow> \<not> hasClass d c k)"
    unfolding qs find_None_iff using desc has by blast
  ultimately show ?thesis
    by blast
qed

lemma keyElem_spec:
  assumes "elementAt d s \<noteq> None"
  shows "if (\<exists>k. strict_prefix s k \<and> hasClass d ''print-all-rows'' k)
         then strict_prefix s (keyElem d s) \<and> hasClass d ''print-all-rows'' (keyElem d s)
         else keyElem d s = s"
proof -
  from assms obtain el where el: "elementAt d s = Some el"
    by auto
  show ?thesis
    using querySelector_spec [OF el, of "''print-all-rows''"]
    by (cases "querySelector d s ''print-all-rows''") (auto simp: keyElem_def)
qed

subsection \<open>The page after prepareToPrint\<close>

lemma prepareToPrint_classesAt:
  assumes keep: "classesAt (viewPrepareToPrint view onOff
                   (toggleClass sectionElem ''print-widget'' onOff
                      (forEachBox_hide sectionElem onOff layout (document w)))) q =
                 classesAt (toggleClass sectionElem ''print-widget'' onOff
                      (forEachBox_hide sectionElem onOff layout (document w))) q"
  shows "classesAt (document (prepareToPrint layout view sectionElem onOff w)) q =
           map_option
             (\<lambda>cs. toggleIf (q \<noteq> [] \<and> strict_prefix q (keyElem (document (prepareToPrint layout view sectionElem onOff w)) sectionElem))
                      ''print-parent'' onOff
                   (toggleIf (q = sectionElem) ''print-widget'' onOff
                   (toggleIf (q \<in> box_dom ` set layout \<and> \<not> contains q sectionElem)
                      ''print-hide'' onOff cs)))
             (classesAt (document w) q)"
  using keep
  by (auto simp: prepareToPrint_def callPrepareToPrint_def Let_def keyElem_markParents classesAt_markParents
        classesAt_toggleClass classesAt_forEachBox_hide toggleIf_def option.map_comp comp_def
        option.map_ident)

lemma elementAt_append:
  "elementAt es p = Some el \<Longrightarrow> elementAt (es @ xs) p = Some el"
  by (cases p rule: path_cases) (auto simp: nth_append split: if_splits)

lemma classesAt_updateElement_grow:
  assumes "\<forall>el. classList (f el) = classList el"
    and "\<forall>el. \<exists>xs. children (f el) = children el @ xs"
    and "classesAt d e = Some cs"
  shows "classesAt (updateElement f p d) e = Some cs"
  using assms
proof (induction f p d arbitrary: e rule: updateElement.induct)
  case (1 f es)
  then show ?case by simp
next
  case (2 f i es)
  show ?case
  proof (cases e rule: path_cases)
    case Empty
    with 2 show ?thesis by simp
  next
    case (Single k)
    with 2 show ?thesis by (auto simp: classesAt_def nth_list_update split: if_splits)
  next
    case (Deeper k l r)
    with 2 show ?thesis
      by (auto simp: classesAt_def nth_list_update split: if_splits)
         (metis elementAt_append)
  qed
next
  case (3 f i j p es)
  show ?case
  proof (cases e rule: path_cases)
    case Empty
    with 3 show ?thesis by simp
  next
    case (Single k)
    with 3 show ?thesis by (auto simp: classesAt_def nth_list_update split: if_splits)
  next
    case (Deeper k l r)
    with "3.prems" "3.IH" [of "l # r"] show ?thesis
      by (auto simp: classesAt_def nth_list_update split: if_splits)
  qed
qed

lemma scrollyView_keeps_classes:
  "classesAt d e = Some cs \<Longrightarrow>
   classesAt (viewPrepareToPrint (scrollyView pane) True d) e = Some cs"
  by (simp add: scrollyView_def classesAt_updateElement_grow)

lemma keyElem_prepareToPrint_plain:
  assumes "\<forall>onOff d. viewPrepareToPrint view onOff d = d"
  shows "keyElem (document (prepareToPrint layout view s b w)) s = keyElem (document w) s"
  using assms
  by (simp add: prepareToPrint_def callPrepareToPrint_def Let_def keyElem_markParents keyElem_toggleClass
        keyElem_forEachBox_hide)

lemma toggleIf_roundtrip:
  assumes "h \<notin> set cs" "w \<notin> set cs" "p \<notin> set cs" "h \<noteq> w" "h \<noteq> p" "w \<noteq> p"
  shows "toggleIf P p False (toggleIf W w False (toggleIf H h False
           (toggleIf P p True (toggleIf W w True (toggleIf H h True cs))))) = cs"
  using assms by (cases P; cases W; cases H) (simp_all add: toggleIf_def classList_toggle_def)

subsection \<open>The rows rendered by renderAllRows\<close>

lemma forEachRow_html:
  "snd (forEachRow renderRow k rowIds (m, html)) =
     html @ map (\<lambda>(i, r). outerHTML (renderRow (m\<lparr>index' := Some i, rowId' := Some r\<rparr>)))
              [(i, r). (i, Row r) \<leftarrow> enumerate k rowIds]"
proof (induction rowIds arbitrary: k m html)
  case Nil
  then show ?case by simp
next
  case (Cons x xs)
  show ?case
  proof (cases x)
    case (Row r)
    then show ?thesis by (simp add: Cons.IH Let_def)
  next
    case New
    then show ?thesis by (simp add: Cons.IH)
  qed
qed

lemma join_butlast_last:
  "join sep xs = (if xs = [] then [] else concat (map (\<lambda>x. x @ sep) (butlast xs)) @ last xs)"
  by (induction sep xs rule: join.induct) simp_all

section \<open>Claims about printing\<close>



text \<open>
  C6, as amended. After \<open>prepareToPrint(true)\<close>, for a view whose own
  \<open>prepareToPrint\<close> keeps the class lists of the elements that exist: an element has
  \<open>print-hide\<close> exactly when it had it before or is the element of a layout box that
  does not contain the section element; the section element has \<open>print-widget\<close>; every
  ancestor of the key element has \<open>print-parent\<close>; and a layout box that contains the
  section element gets no \<open>print-hide\<close>, but it does get \<open>print-parent\<close> when it is an
  ancestor of the key element and \<open>print-widget\<close> when it is the section element. No
  other class of an element changes. The key element is a descendant of the section
  element with class \<open>print-all-rows\<close> when there is one, and the section element
  otherwise.
\<close>

theorem prepareToPrint_on_classes:
  assumes keep: "\<forall>d e cs. classesAt d e = Some cs \<longrightarrow>
                   classesAt (viewPrepareToPrint view True d) e = Some cs"
    and d': "d' = document (prepareToPrint layout view sectionElem True w)"
    and q: "classesAt (document w) q = Some cs"
  shows "\<exists>cs'. classesAt d' q = Some cs' \<and>
           (''print-hide'' \<in> set cs' \<longleftrightarrow>
              ''print-hide'' \<in> set cs \<or>
              (q \<in> box_dom ` set layout \<and> \<not> contains q sectionElem)) \<and>
           (q = sectionElem \<longrightarrow> ''print-widget'' \<in> set cs') \<and>
           (strict_prefix q (keyElem d' sectionElem) \<longrightarrow> ''print-parent'' \<in> set cs') \<and>
           (q \<in> box_dom ` set layout \<and> contains q sectionElem \<longrightarrow>
              cs' = toggleIf (strict_prefix q (keyElem d' sectionElem)) ''print-parent'' True
                      (toggleIf (q = sectionElem) ''print-widget'' True cs)) \<and>
           (\<forall>c. c \<notin> {''print-hide'', ''print-widget'', ''print-parent''} \<longrightarrow>
              (c \<in> set cs' \<longleftrightarrow> c \<in> set cs)) \<and>
           (\<forall>a as. classesAt d' a = Some as \<and> strict_prefix a (keyElem d' sectionElem) \<longrightarrow>
              ''print-parent'' \<in> set as) \<and>
           (elementAt d' sectionElem \<noteq> None \<longrightarrow>
              (if (\<exists>k. strict_prefix sectionElem k \<and> hasClass d' ''print-all-rows'' k)
               then strict_prefix sectionElem (keyElem d' sectionElem) \<and>
                    hasClass d' ''print-all-rows'' (keyElem d' sectionElem)
               else keyElem d' sectionElem = sectionElem))"
proof -
  let ?d2 = "toggleClass sectionElem ''print-widget'' True
               (forEachBox_hide sectionElem True layout (document w))"
  let ?d3 = "viewPrepareToPrint view True ?d2"
  have "\<exists>cs2. classesAt ?d2 q = Some cs2"
    using q by (auto simp: classesAt_toggleClass classesAt_forEachBox_hide)
  then have same: "classesAt ?d3 q = classesAt ?d2 q"
    using keep by auto
  have nonempty: "q \<noteq> []"
    using q by auto
  note main = prepareToPrint_classesAt [of view True sectionElem layout w q, OF same,
      folded d']
  have anc: "''print-parent'' \<in> set as"
    if "classesAt d' a = Some as" "strict_prefix a (keyElem d' sectionElem)" for a as
  proof -
    have key: "keyElem d' sectionElem = keyElem ?d3 sectionElem"
      by (simp add: d' prepareToPrint_def callPrepareToPrint_def Let_def keyElem_markParents)
    have "a \<noteq> []"
      using that(1) by auto
    then have "classesAt d' a =
            map_option (classList_toggle ''print-parent'' True) (classesAt ?d3 a)"
      using that(2) unfolding key
      by (simp add: d' prepareToPrint_def callPrepareToPrint_def Let_def classesAt_markParents)
    with that(1) show ?thesis
      by (auto simp: classList_toggle_mem)
  qed
  have "\<exists>cs'. classesAt d' q = Some cs' \<and>
           (''print-hide'' \<in> set cs' \<longleftrightarrow>
              ''print-hide'' \<in> set cs \<or>
              (q \<in> box_dom ` set layout \<and> \<not> contains q sectionElem)) \<and>
           (q = sectionElem \<longrightarrow> ''print-widget'' \<in> set cs') \<and>
           (strict_prefix q (keyElem d' sectionElem) \<longrightarrow> ''print-parent'' \<in> set cs') \<and>
           (q \<in> box_dom ` set layout \<and> contains q sectionElem \<longrightarrow>
              cs' = toggleIf (strict_prefix q (keyElem d' sectionElem)) ''print-parent'' True
                      (toggleIf (q = sectionElem) ''print-widget'' True cs)) \<and>
           (\<forall>c. c \<notin> {''print-hide'', ''print-widget'', ''print-parent''} \<longrightarrow>
              (c \<in> set cs' \<longleftrightarrow> c \<in> set cs))"
    using main q nonempty
    by (auto simp: toggleIf_def classList_toggle_mem)
  moreover have "\<forall>a as. classesAt d' a = Some as \<and> strict_prefix a (keyElem d' sectionElem) \<longrightarrow>
              ''print-parent'' \<in> set as"
    using anc by blast
  moreover have "elementAt d' sectionElem \<noteq> None \<longrightarrow>
              (if (\<exists>k. strict_prefix sectionElem k \<and> hasClass d' ''print-all-rows'' k)
               then strict_prefix sectionElem (keyElem d' sectionElem) \<and>
                    hasClass d' ''print-all-rows'' (keyElem d' sectionElem)
               else keyElem d' sectionElem = sectionElem)"
    using keyElem_spec [of d' sectionElem] by simp
  ultimately show ?thesis
    by simp
qed

theorem prepareToPrint_on_classes_witness:
  "(\<exists>cs'. classesAt
      (document (prepareToPrint [\<lparr>box_dom = [0, 0]\<rparr>, \<lparr>box_dom = [0, 1]\<rparr>]
         (scrollyView [0, 0, 0, 0]) [0, 0, 0] True
         \<lparr>document = [Element [''layout'']
            [Element [''box''] [Element [''viewsection_content''] [Element [''pane''] []]],
             Element [''box''] []]],
          debugPrinting = False, sub1 = False, sub2 = False, events = []\<rparr>))
      [0, 1] = Some cs' \<and> ''print-hide'' \<in> set cs') \<and>
   (\<exists>cs'. classesAt
      (document (prepareToPrint [\<lparr>box_dom = [0, 0]\<rparr>, \<lparr>box_dom = [0, 1]\<rparr>]
         (scrollyView [0, 0, 0, 0]) [0, 0, 0] True
         \<lparr>document = [Element [''layout'']
            [Element [''box''] [Element [''viewsection_content''] [Element [''pane''] []]],
             Element [''box''] []]],
          debugPrinting = False, sub1 = False, sub2 = False, events = []\<rparr>))
      [0, 0] = Some cs' \<and> ''print-hide'' \<notin> set cs' \<and> ''print-parent'' \<in> set cs')"
proof -
  let ?w = "\<lparr>document = [Element [''layout'']
            [Element [''box''] [Element [''viewsection_content''] [Element [''pane''] []]],
             Element [''box''] []]],
          debugPrinting = False, sub1 = False, sub2 = False, events = []\<rparr>"
  let ?layout = "[\<lparr>box_dom = [0, 0]\<rparr>, \<lparr>box_dom = [0, 1]\<rparr>]"
  let ?d' = "document (prepareToPrint ?layout (scrollyView [0, 0, 0, 0]) [0, 0, 0] True ?w)"
  have keep: "\<forall>d e cs. classesAt d e = Some cs \<longrightarrow>
                classesAt (viewPrepareToPrint (scrollyView [0, 0, 0, 0]) True d) e = Some cs"
    by (simp add: scrollyView_keeps_classes)
  have key: "keyElem ?d' [0, 0, 0] = [0, 0, 0, 0, 0]"
    by code_simp
  have q1: "classesAt (document ?w) [0, 1] = Some [''box'']"
    by code_simp
  have q2: "classesAt (document ?w) [0, 0] = Some [''box'']"
    by code_simp
  have c1: "\<not> contains [0, 1] [0, 0, 0]" and c2: "contains [0, 0] [0, 0, 0]"
    and a2: "strict_prefix [0, 0] [0, 0, 0, 0, 0::nat]"
    by (simp_all add: contains_def)
  from prepareToPrint_on_classes [OF keep refl q1, of ?layout "[0, 0, 0]"] c1
  have "\<exists>cs'. classesAt ?d' [0, 1] = Some cs' \<and> ''print-hide'' \<in> set cs'"
    by auto
  moreover
  from prepareToPrint_on_classes [OF keep refl q2, of ?layout "[0, 0, 0]"] c2 a2
  have "\<exists>cs'. classesAt ?d' [0, 0] = Some cs' \<and> ''print-hide'' \<notin> set cs' \<and>
              ''print-parent'' \<in> set cs'"
    unfolding key by auto
  ultimately show ?thesis
    by blast
qed

text \<open>
  C6 as stated fails in its last part: a layout box that contains the section element is
  an ancestor of it, and gets \<open>print-parent\<close>.
\<close>

theorem prepareToPrint_box_counterexample:
  "contains [0] [0, 0] \<and>
   classesAt [Element [''box''] [Element [''viewsection_content''] []]] [0] = Some [''box''] \<and>
   classesAt
     (document
        (prepareToPrint [\<lparr>box_dom = [0]\<rparr>] (plainView [0, 0]) [0, 0] True
           \<lparr>document = [Element [''box''] [Element [''viewsection_content''] []]],
            debugPrinting = False, sub1 = False, sub2 = False, events = []\<rparr>))
     [0] = Some [''box'', ''print-parent'']"
  by code_simp

text \<open>
  C7, as amended. \<open>renderAllRows\<close> returns a \<open>div\<close> of class \<open>print-all-rows\<close> whose
  \<open>innerHTML\<close> has been set to the rows' \<open>outerHTML\<close> joined by newlines: one row for each
  numeric row id, in the order of the list, rendered from the floating row model set to
  that row id and to its position in the list; an id \<open>'new'\<close> gives no row. The children
  of the \<open>div\<close> are what the browser parses from that string, and reading \<open>innerHTML\<close>
  gives the browser's serialisation of them: it is the joined string whenever that
  string comes back unchanged from parsing and serialising.
\<close>

theorem renderAllRows_html:
  assumes "rows = map (\<lambda>(i, r). outerHTML (renderRow \<lparr>tableModel = tm, index' = Some i, rowId' = Some r\<rparr>))
                    [(i, r). (i, Row r) \<leftarrow> enumerate 0 rowIds]"
    and "joined = (if rows = [] then []
                   else concat (map (\<lambda>h. h @ [CHR 0x0A]) (butlast rows)) @ last rows)"
  shows "renderAllRows browser tm rowIds renderRow =
           \<lparr>tagName = ''div'', className = [''print-all-rows''],
            childNodes = parseFragment browser joined\<rparr> \<and>
         innerHTML browser (renderAllRows browser tm rowIds renderRow) =
           serializeFragment browser (parseFragment browser joined) \<and>
         (serializeFragment browser (parseFragment browser joined) = joined \<longrightarrow>
            innerHTML browser (renderAllRows browser tm rowIds renderRow) = joined)"
proof -
  have "snd (forEachRow renderRow 0 rowIds (createFloatingRowModel tm None, [])) = rows"
    unfolding assms(1) forEachRow_html by (simp add: createFloatingRowModel_def)
  then have "renderAllRows browser tm rowIds renderRow =
           \<lparr>tagName = ''div'', className = [''print-all-rows''],
            childNodes = parseFragment browser (join [CHR 0x0A] rows)\<rparr>"
    by (auto simp: renderAllRows_def set_innerHTML_def Let_def split: prod.splits)
  moreover have "join [CHR 0x0A] rows = joined"
    unfolding assms(2) by (rule join_butlast_last)
  ultimately show ?thesis
    by (simp add: innerHTML_def)
qed

theorem renderAllRows_html_witness:
  "innerHTML divContext
     (renderAllRows divContext () [Row 1, New, Row 2]
        (\<lambda>m. \<lparr>outerHTML = ''<div>'' @ (if rowId' m = Some 1 then ''one'' else ''two'') @ ''</div>''\<rparr>))
   = ''<div>one</div>'' @ [CHR 0x0A] @ ''<div>two</div>''"
proof -
  let ?renderRow = "\<lambda>m :: unit DataRowModel.
      \<lparr>outerHTML = ''<div>'' @ (if rowId' m = Some 1 then ''one'' else ''two'') @ ''</div>''\<rparr>"
  let ?rows = "map (\<lambda>(i, r). outerHTML (?renderRow \<lparr>tableModel = (), index' = Some i, rowId' = Some r\<rparr>))
                    [(i, r). (i, Row r) \<leftarrow> enumerate 0 [Row 1, New, Row 2]]"
  let ?joined = "if ?rows = [] then []
                 else concat (map (\<lambda>h. h @ [CHR 0x0A]) (butlast ?rows)) @ last ?rows"
  have joined: "?joined = ''<div>one</div>'' @ [CHR 0x0A] @ ''<div>two</div>''"
    by code_simp
  have stable: "serializeFragment divContext (parseFragment divContext ?joined) = ?joined"
    by code_simp
  from renderAllRows_html [OF refl refl, of divContext "()" "[Row 1, New, Row 2]" ?renderRow] stable
  have "innerHTML divContext (renderAllRows divContext () [Row 1, New, Row 2] ?renderRow) = ?joined"
    by blast
  then show ?thesis
    unfolding joined .
qed

text \<open>
  C7 as stated fails for a \<open>renderRow\<close> that makes table rows: parsed as children of a
  \<open>div\<close>, the \<open>tr\<close> and \<open>td\<close> tags are dropped, and \<open>innerHTML\<close> reads back as the cell
  texts only.
\<close>

theorem renderAllRows_tr_counterexample:
  "innerHTML divContext
     (renderAllRows divContext () [Row 1, Row 2]
        (\<lambda>m. \<lparr>outerHTML =
           ''<tr><td>'' @ (if rowId' m = Some 1 then ''one'' else ''two'') @ ''</td></tr>''\<rparr>))
   = ''one'' @ [CHR 0x0A] @ ''two'' \<and>
   innerHTML divContext
     (renderAllRows divContext () [Row 1, Row 2]
        (\<lambda>m. \<lparr>outerHTML =
           ''<tr><td>'' @ (if rowId' m = Some 1 then ''one'' else ''two'') @ ''</td></tr>''\<rparr>))
   \<noteq> ''<tr><td>one</td></tr>'' @ [CHR 0x0A] @ ''<tr><td>two</td></tr>''"
  by code_simp

text \<open>
  C9. With a view that uses scrolly rendering the class lists are not restored: the
  key element of the first run is the \<open>print-all-rows\<close> element inside the section, so
  the section element and the view pane get \<open>print-parent\<close>; in the second run that
  element is gone before the key element is looked up, the key element is the section
  element, and \<open>print-parent\<close> is taken off its ancestors only.
\<close>

theorem printViewSection_scrolly_not_restored:
  "map_sum id document
     (printViewSection [\<lparr>box_dom = [0, 0]\<rparr>, \<lparr>box_dom = [0, 1]\<rparr>]
        \<lparr>viewInstance = Some (scrollyView [0, 0, 0, 0])\<rparr>
        \<lparr>document = [Element [''layout'']
           [Element [''box''] [Element [''viewsection_content''] [Element [''pane''] []]],
            Element [''box''] []]],
         debugPrinting = False, sub1 = False, sub2 = False, events = []\<rparr>)
   = Inr [Element [''layout'']
           [Element [''box'']
              [Element [''viewsection_content'', ''print-parent'']
                 [Element [''pane'', ''print-parent''] []]],
            Element [''box''] []]]"
  by code_simp

text \<open>
  X1. With a view that leaves the page alone the two runs do cancel: every element that
  carried none of the three classes has its class list back.
\<close>

theorem prepareToPrint_roundtrip_plain:
  assumes plain: "\<forall>onOff d. viewPrepareToPrint view onOff d = d"
    and q: "classesAt (document w) q = Some cs"
    and clean: "''print-hide'' \<notin> set cs" "''print-widget'' \<notin> set cs" "''print-parent'' \<notin> set cs"
  shows "classesAt
           (document (prepareToPrint layout view s False (prepareToPrint layout view s True w)))
           q = Some cs"
proof -
  let ?w1 = "prepareToPrint layout view s True w"
  have on: "classesAt (document ?w1) q =
          Some (toggleIf (q \<noteq> [] \<and> strict_prefix q (keyElem (document w) s)) ''print-parent'' True
                 (toggleIf (q = s) ''print-widget'' True
                 (toggleIf (q \<in> box_dom ` set layout \<and> \<not> contains q s) ''print-hide'' True cs)))"
    using prepareToPrint_classesAt [of view True s layout w q] plain q
    by (simp add: keyElem_prepareToPrint_plain)
  have off: "classesAt (document (prepareToPrint layout view s False ?w1)) q =
          map_option
            (\<lambda>cs. toggleIf (q \<noteq> [] \<and> strict_prefix q (keyElem (document w) s)) ''print-parent'' False
                 (toggleIf (q = s) ''print-widget'' False
                 (toggleIf (q \<in> box_dom ` set layout \<and> \<not> contains q s) ''print-hide'' False cs)))
            (classesAt (document ?w1) q)"
    using prepareToPrint_classesAt [of view False s layout ?w1 q] plain
    by (simp add: keyElem_prepareToPrint_plain)
  show ?thesis
    using clean by (simp add: off on toggleIf_roundtrip)
qed

theorem prepareToPrint_roundtrip_plain_witness:
  "classesAt
     (document
        (prepareToPrint [\<lparr>box_dom = [0, 0]\<rparr>, \<lparr>box_dom = [0, 1]\<rparr>] (plainView [0, 0, 0, 0])
           [0, 0, 0] False
           (prepareToPrint [\<lparr>box_dom = [0, 0]\<rparr>, \<lparr>box_dom = [0, 1]\<rparr>] (plainView [0, 0, 0, 0])
              [0, 0, 0] True
              \<lparr>document = [Element [''layout'']
                 [Element [''box''] [Element [''viewsection_content''] [Element [''pane''] []]],
                  Element [''box''] []]],
               debugPrinting = False, sub1 = False, sub2 = False, events = []\<rparr>)))
     [0, 0] = Some [''box'']"
proof -
  let ?w = "\<lparr>document = [Element [''layout'']
                 [Element [''box''] [Element [''viewsection_content''] [Element [''pane''] []]],
                  Element [''box''] []]],
               debugPrinting = False, sub1 = False, sub2 = False, events = []\<rparr>"
  have plain: "\<forall>onOff d. viewPrepareToPrint (plainView [0, 0, 0, 0]) onOff d = d"
    by (simp add: plainView_def)
  have q: "classesAt (document ?w) [0, 0] = Some [''box'']"
    by code_simp
  show ?thesis
    using prepareToPrint_roundtrip_plain [OF plain q] by simp
qed

text \<open>
  X2. \<open>querySelector\<close> on an element of the page returns a proper descendant that has the
  class, and returns null exactly when no descendant has it.
\<close>

theorem querySelector_finds:
  assumes "elementAt d e = Some el"
  shows "(\<forall>k. querySelector d e c = Some k \<longrightarrow> strict_prefix e k \<and> hasClass d c k) \<and>
         (querySelector d e c = None \<longleftrightarrow> (\<forall>k. strict_prefix e k \<longrightarrow> \<not> hasClass d c k))"
  using assms by (rule querySelector_spec)

theorem querySelector_finds_witness:
  "querySelector
     [Element [''viewsection_content''] [Element [''pane''] [Element [''print-all-rows''] []]]]
     [0] ''print-all-rows'' = Some [0, 0, 0] \<and>
   strict_prefix [0] [0, 0, 0::nat] \<and>
   hasClass
     [Element [''viewsection_content''] [Element [''pane''] [Element [''print-all-rows''] []]]]
     ''print-all-rows'' [0, 0, 0]"
proof -
  let ?d = "[Element [''viewsection_content''] [Element [''pane''] [Element [''print-all-rows''] []]]]"
  have el: "elementAt ?d [0] =
            Some (Element [''viewsection_content''] [Element [''pane''] [Element [''print-all-rows''] []]])"
    by simp
  have found: "querySelector ?d [0] ''print-all-rows'' = Some [0, 0, 0]"
    by code_simp
  with querySelector_finds [OF el, of "''print-all-rows''"] show ?thesis
    by blast
qed

text \<open>X3. Without a page widget \<open>printViewSection\<close> throws.\<close>

theorem printViewSection_no_widget:
  "sectionElemOf viewSection w = None \<Longrightarrow>
   printViewSection layout viewSection w = Inl (Error ''No page widget to print'')"
  by (simp add: printViewSection_def split: option.splits)

theorem printViewSection_no_widget_witness:
  "printViewSection [] \<lparr>viewInstance = None\<rparr>
     \<lparr>document = [], debugPrinting = False, sub1 = False, sub2 = False, events = []\<rparr>
   = Inl (Error ''No page widget to print'')"
  using printViewSection_no_widget [of "\<lparr>viewInstance = None\<rparr>"]
  by (simp add: sectionElemOf_def)

text \<open>
  X4. A custom view whose own print succeeds prints by itself: neither the page nor the
  listeners are touched.
\<close>

theorem printViewSection_customView:
  assumes "sectionElemOf viewSection w = Some sectionElem"
    and "viewInstance viewSection = Some view"
    and "isCustomView view" and "triggerPrint view"
  shows "printViewSection layout viewSection w =
           Inr (w\<lparr>events := events w @ [CustomViewTriggerPrint]\<rparr>)"
  using assms by (simp add: printViewSection_def)

theorem printViewSection_customView_witness:
  "printViewSection [\<lparr>box_dom = [0]\<rparr>]
     \<lparr>viewInstance = Some ((plainView [0]) \<lparr>isCustomView := True, triggerPrint := True\<rparr>)\<rparr>
     \<lparr>document = [Element [''viewsection_content''] []],
      debugPrinting = False, sub1 = False, sub2 = False, events = []\<rparr>
   = Inr \<lparr>document = [Element [''viewsection_content''] []],
          debugPrinting = False, sub1 = False, sub2 = False,
          events = [CustomViewTriggerPrint]\<rparr>"
proof -
  let ?view = "(plainView [0]) \<lparr>isCustomView := True, triggerPrint := True\<rparr>"
  let ?w = "\<lparr>document = [Element [''viewsection_content''] []],
      debugPrinting = False, sub1 = False, sub2 = False, events = []\<rparr>"
  have h1: "sectionElemOf \<lparr>viewInstance = Some ?view\<rparr> ?w = Some [0]"
    by code_simp
  show ?thesis
    using printViewSection_customView [OF h1, of ?view "[\<lparr>box_dom = [0]\<rparr>]"]
    by simp
qed

end
